theory Spec2Isabelle
  imports Complex_Main "HOL-Library.Word" "HOL-Library.Log_Nat" "HOL-Library.Signed_Division"
begin

unbundle bit_operations_syntax

section \<open>nstats: the XDP statistics dashboard (internal/stats/stats.go)\<close>

text \<open>
  A shallow embedding of \<^verbatim>\<open>internal/stats/stats.go\<close>. Go's \<^verbatim>\<open>uint64\<close> and
  \<^verbatim>\<open>uint32\<close> are words, \<^verbatim>\<open>float64\<close> is a datatype of the IEEE 754 binary64 values with
  the operations rounding to nearest, ties to even, errors are values, a panic is a value of
  its own type, and everything the code reads from outside (the clock, the BPF map, the
  ticker and the terminal) is threaded through explicitly.
\<close>

subsection \<open>Errors and panics\<close>

datatype error =
    EOF
  | ErrUnexpectedEOF
  | MapError string
  | Wrapped string error

datatype panic = Panic string

subsection \<open>Fixed arrays of five elements\<close>

text \<open>
  \<^verbatim>\<open>[5]record\<close> and \<^verbatim>\<open>[5]*stats\<close>: the length is part of the type. An index outside
  0..4 is \<open>None\<close>, where Go panics.
\<close>

datatype 'a array5 = Array5 'a 'a 'a 'a 'a

fun a5_get :: "'a array5 \<Rightarrow> nat \<Rightarrow> 'a option" where
  "a5_get (Array5 a b c d e) i =
     (if i = 0 then Some a else if i = 1 then Some b else if i = 2 then Some c
      else if i = 3 then Some d else if i = 4 then Some e else None)"

text \<open>Storing at an index; only used at an index that \<open>a5_get\<close> has found in range.\<close>

fun a5_set :: "'a array5 \<Rightarrow> nat \<Rightarrow> 'a \<Rightarrow> 'a array5" where
  "a5_set (Array5 a b c d e) i v =
     (if i = 0 then Array5 v b c d e else if i = 1 then Array5 a v c d e
      else if i = 2 then Array5 a b v d e else if i = 3 then Array5 a b c v e
      else if i = 4 then Array5 a b c d v else Array5 a b c d e)"

fun a5_list :: "'a array5 \<Rightarrow> 'a list" where
  "a5_list (Array5 a b c d e) = [a, b, c, d, e]"

subsection \<open>datarec and its decoder\<close>

record datarec =
  rxPackets :: "64 word"
  rxBytes :: "64 word"

definition zero_datarec :: datarec where
  "zero_datarec = \<lparr>rxPackets = 0, rxBytes = 0\<rparr>"

text \<open>\<^verbatim>\<open>binary.LittleEndian.Uint64\<close> on a slice of at least 8 bytes.\<close>

definition le_uint64 :: "8 word list \<Rightarrow> 64 word" where
  "le_uint64 b =
     ucast (b ! 0) OR push_bit 8 (ucast (b ! 1)) OR push_bit 16 (ucast (b ! 2))
     OR push_bit 24 (ucast (b ! 3)) OR push_bit 32 (ucast (b ! 4))
     OR push_bit 40 (ucast (b ! 5)) OR push_bit 48 (ucast (b ! 6))
     OR push_bit 56 (ucast (b ! 7))"

text \<open>
  \<^verbatim>\<open>binary.Read(r, binary.LittleEndian, &x)\<close> for a \<^verbatim>\<open>uint64\<close> on a \<^verbatim>\<open>bytes.Buffer\<close>:
  \<^verbatim>\<open>io.ReadFull\<close> of 8 bytes. An empty buffer gives \<^verbatim>\<open>io.EOF\<close>, a buffer of 1 to 7
  bytes is drained and gives \<^verbatim>\<open>io.ErrUnexpectedEOF\<close>. The second component is the
  buffer left unread.
\<close>

definition binary_Read :: "8 word list \<Rightarrow> (error + 64 word) \<times> 8 word list" where
  "binary_Read r =
     (if 8 \<le> length r then (Inr (le_uint64 (take 8 r)), drop 8 r)
      else if r = [] then (Inl EOF, [])
      else (Inl ErrUnexpectedEOF, []))"

text \<open>
  \<^verbatim>\<open>(d *datarec) UnmarshalBinary(p)\<close>: the receiver is updated in place, so the model
  takes it and returns it with the error.
\<close>

definition UnmarshalBinary :: "8 word list \<Rightarrow> datarec \<Rightarrow> error option \<times> datarec" where
  "UnmarshalBinary p d =
     (case binary_Read p of
        (Inl err, r1) \<Rightarrow> (Some err, d)
      | (Inr v, r1) \<Rightarrow>
          (let d1 = d\<lparr>rxPackets := v\<rparr> in
           case binary_Read r1 of
             (Inl err, r2) \<Rightarrow> (Some err, d1)
           | (Inr v', r2) \<Rightarrow> (None, d1\<lparr>rxBytes := v'\<rparr>)))"

subsection \<open>float64\<close>

text \<open>
  The values of IEEE 754 binary64. \<open>Finite r\<close> is the finite value \<open>r\<close>, with
  \<open>Finite 0\<close> the positive zero; \<open>NegZero\<close> is the negative zero.
\<close>

datatype f64 = Finite rat | NegZero | PosInf | NegInf | NaN

definition round_half_even :: "rat \<Rightarrow> int" where
  "round_half_even x =
     (let f = \<lfloor>x\<rfloor>; r = x - of_int f in
      if r < 1 / 2 then f else if 1 / 2 < r then f + 1 else if even f then f else f + 1)"

text \<open>The number of binary digits of a positive integer.\<close>

function bit_length :: "int \<Rightarrow> int" where
  "bit_length n = (if n \<le> 0 then 0 else 1 + bit_length (n div 2))"
  by pat_completeness auto
termination
  by (relation "measure nat") auto

declare bit_length.simps [simp del]

text \<open>The binary exponent of a positive rational: \<open>2 ^ e \<le> a < 2 ^ (e + 1)\<close>.\<close>

definition binexp :: "rat \<Rightarrow> int" where
  "binexp a =
     (let (n, d) = quotient_of a; k = bit_length n - bit_length d in
      if 2 powi k \<le> a then k else k - 1)"

text \<open>
  Rounding a rational to binary64, to nearest and ties to even: a 53-bit significand,
  exponents from -1022 to 1023, subnormals in steps of \<open>2 ^ -1074\<close>, underflow to a
  zero of the same sign, overflow to an infinity when the rounded value needs an exponent
  above 1023 (it is \<open>2 ^ 1024\<close> or more).
\<close>

definition round_f64 :: "rat \<Rightarrow> f64" where
  "round_f64 q =
     (if q = 0 then Finite 0
      else
        let a = \<bar>q\<bar>;
            e = max (binexp a) (- 1022);
            ulp = 2 powi (e - 52);
            r = of_int (round_half_even (a / ulp)) * ulp
        in if r = 0 then (if 0 < q then Finite 0 else NegZero)
           else if 1023 < binexp r then (if 0 < q then PosInf else NegInf)
           else Finite (if 0 < q then r else - r))"

fun sign_bit :: "f64 \<Rightarrow> bool" where
  "sign_bit (Finite r) = (r < 0)"
| "sign_bit NegZero = True"
| "sign_bit PosInf = False"
| "sign_bit NegInf = True"
| "sign_bit NaN = False"

fun is_zero :: "f64 \<Rightarrow> bool" where
  "is_zero (Finite r) = (r = 0)"
| "is_zero NegZero = True"
| "is_zero x = False"

fun is_inf :: "f64 \<Rightarrow> bool" where
  "is_inf PosInf = True"
| "is_inf NegInf = True"
| "is_inf x = False"

fun val :: "f64 \<Rightarrow> rat" where
  "val (Finite r) = r"
| "val x = 0"

definition zero_of :: "bool \<Rightarrow> f64" where
  "zero_of neg = (if neg then NegZero else Finite 0)"

definition inf_of :: "bool \<Rightarrow> f64" where
  "inf_of neg = (if neg then NegInf else PosInf)"

definition f64_div :: "f64 \<Rightarrow> f64 \<Rightarrow> f64" where
  "f64_div x y =
     (if x = NaN \<or> y = NaN then NaN
      else if is_inf x then (if is_inf y then NaN else inf_of (sign_bit x \<noteq> sign_bit y))
      else if is_inf y then zero_of (sign_bit x \<noteq> sign_bit y)
      else if is_zero y then (if is_zero x then NaN else inf_of (sign_bit x \<noteq> sign_bit y))
      else if is_zero x then zero_of (sign_bit x \<noteq> sign_bit y)
      else round_f64 (val x / val y))"

definition f64_mul :: "f64 \<Rightarrow> f64 \<Rightarrow> f64" where
  "f64_mul x y =
     (if x = NaN \<or> y = NaN then NaN
      else if is_inf x \<or> is_inf y then
        (if is_zero x \<or> is_zero y then NaN else inf_of (sign_bit x \<noteq> sign_bit y))
      else if is_zero x \<or> is_zero y then zero_of (sign_bit x \<noteq> sign_bit y)
      else round_f64 (val x * val y))"

definition f64_add :: "f64 \<Rightarrow> f64 \<Rightarrow> f64" where
  "f64_add x y =
     (if x = NaN \<or> y = NaN then NaN
      else if is_inf x then (if is_inf y \<and> x \<noteq> y then NaN else x)
      else if is_inf y then y
      else if is_zero x \<and> is_zero y then zero_of (sign_bit x \<and> sign_bit y)
      else if val x + val y = 0 then Finite 0
      else round_f64 (val x + val y))"

text \<open>\<^verbatim>\<open>x < y\<close> on float64: false as soon as one side is NaN; the two zeros are equal.\<close>

fun f64_less :: "f64 \<Rightarrow> f64 \<Rightarrow> bool" where
  "f64_less NaN y = False"
| "f64_less x NaN = False"
| "f64_less PosInf y = False"
| "f64_less x NegInf = False"
| "f64_less NegInf y = True"
| "f64_less x PosInf = True"
| "f64_less x y = (val x < val y)"

text \<open>The conversions \<^verbatim>\<open>float64(x)\<close> from \<^verbatim>\<open>uint64\<close> and from \<^verbatim>\<open>int64\<close>.\<close>

definition u64_to_f64 :: "64 word \<Rightarrow> f64" where
  "u64_to_f64 w = round_f64 (of_int (uint w))"

definition i64_to_f64 :: "int \<Rightarrow> f64" where
  "i64_to_f64 i = round_f64 (of_int i)"

subsection \<open>time.Time and time.Duration\<close>

text \<open>
  An instant is a number of nanoseconds on one time line (the clock that \<^verbatim>\<open>Time.Sub\<close>
  compares: the monotonic reading for two values of \<^verbatim>\<open>time.Now\<close>). A \<^verbatim>\<open>Duration\<close>
  is an \<^verbatim>\<open>int64\<close> of nanoseconds, and \<^verbatim>\<open>Sub\<close> saturates at its two ends. The zero
  \<^verbatim>\<open>Time\<close> is January 1 of year 1, here in nanoseconds before the Unix epoch.
\<close>

type_synonym Time = int
type_synonym Duration = int

definition zeroTime :: Time where
  "zeroTime = - 62135596800000000000"

definition minDuration :: Duration where
  "minDuration = - (2 ^ 63)"

definition maxDuration :: Duration where
  "maxDuration = 2 ^ 63 - 1"

definition Sub :: "Time \<Rightarrow> Time \<Rightarrow> Duration" where
  "Sub t u =
     (if t - u < minDuration then minDuration
      else if maxDuration < t - u then maxDuration
      else t - u)"

text \<open>
  \<^verbatim>\<open>Duration.Seconds\<close>: \<^verbatim>\<open>sec := d / Second; nsec := d % Second;
  return float64(sec) + float64(nsec)/1e9\<close>, with Go's truncating division.
\<close>

definition Seconds :: "Duration \<Rightarrow> f64" where
  "Seconds d =
     (let sec = d sdiv 1000000000; nsec = d smod 1000000000 in
      f64_add (i64_to_f64 sec) (f64_div (i64_to_f64 nsec) (Finite 1000000000)))"

subsection \<open>fmt.Sprintf\<close>

text \<open>The decimal digits of a non-negative integer.\<close>

definition digit_char :: "int \<Rightarrow> char" where
  "digit_char d = char_of (48 + d)"

function itoa :: "int \<Rightarrow> string" where
  "itoa n = (if n < 10 then [digit_char n] else itoa (n div 10) @ [digit_char (n mod 10)])"
  by pat_completeness auto
termination
  by (relation "measure nat") auto

declare itoa.simps [simp del]

text \<open>Padding with spaces on the left up to a width (\<^verbatim>\<open>%6...\<close>, \<^verbatim>\<open>%10...\<close>).\<close>

definition pad :: "nat \<Rightarrow> string \<Rightarrow> string" where
  "pad w s = replicate (w - length s) CHR '' '' @ s"

text \<open>
  The digits of a non-negative value with \<open>prec\<close> decimals (\<^verbatim>\<open>strconv.FormatFloat\<close>
  with format \<^verbatim>\<open>'f'\<close>): the exact decimal expansion, rounded half to even.
\<close>

definition fixed_digits :: "nat \<Rightarrow> rat \<Rightarrow> string" where
  "fixed_digits prec a =
     (let n = round_half_even (a * 10 ^ prec);
          ip = n div 10 ^ prec;
          fp = n mod 10 ^ prec;
          fs = itoa fp
      in itoa ip @ (if prec = 0 then [] else ''.'' @ replicate (prec - length fs) CHR ''0'' @ fs))"

fun format_f :: "nat \<Rightarrow> f64 \<Rightarrow> string" where
  "format_f prec NaN = ''NaN''"
| "format_f prec PosInf = ''+Inf''"
| "format_f prec NegInf = ''-Inf''"
| "format_f prec NegZero = ''-'' @ fixed_digits prec 0"
| "format_f prec (Finite r) = (if r < 0 then ''-'' else []) @ fixed_digits prec \<bar>r\<bar>"

text \<open>\<^verbatim>\<open>%W.Pf\<close> is \<open>sprintf_f W P\<close>; \<^verbatim>\<open>%f\<close> is \<open>sprintf_f 0 6\<close>; \<^verbatim>\<open>%d\<close> is \<open>sprintf_d\<close>.\<close>

definition sprintf_f :: "nat \<Rightarrow> nat \<Rightarrow> f64 \<Rightarrow> string" where
  "sprintf_f w prec x = pad w (format_f prec x)"

definition sprintf_d :: "64 word \<Rightarrow> string" where
  "sprintf_d x = itoa (uint x)"

subsection \<open>action2str, calculateSpeed, formatBytes\<close>

text \<open>\<^verbatim>\<open>uint\<close> is taken as 64 bits wide. \<^verbatim>\<open>log.Panic\<close> panics with its message.\<close>

definition action2str :: "64 word \<Rightarrow> panic + string" where
  "action2str act =
     (if act = 0 then Inr ''XDP_ABORT''
      else if act = 1 then Inr ''XDP_DROP''
      else if act = 2 then Inr ''XDP_PASS''
      else if act = 3 then Inr ''XDP_TX''
      else if act = 4 then Inr ''XDP_REDIRECT''
      else Inl (Panic ''invalid input''))"

text \<open>\<open>speed_kbps\<close> is the local \<^verbatim>\<open>kbps\<close> of calculateSpeed.\<close>

definition speed_kbps :: "f64 \<Rightarrow> f64 \<Rightarrow> f64" where
  "speed_kbps bytes period = f64_div (f64_div (f64_mul bytes (Finite 8)) period) (Finite 1000)"

definition calculateSpeed :: "f64 \<Rightarrow> f64 \<Rightarrow> string" where
  "calculateSpeed bytes period =
     (let kbps = speed_kbps bytes period in
      if f64_less kbps (Finite 1000) then sprintf_f 6 0 kbps @ '' Kbits/s''
      else
        let mbps = f64_div kbps (Finite 1000) in
        sprintf_f 6 0 mbps @ '' Mbits/s'')"

definition formatBytes :: "64 word \<Rightarrow> string" where
  "formatBytes bytes =
     (let kbs = bytes div 1024 in
      if kbs < 1024 then sprintf_d kbs @ '' KBs''
      else
        let mbs = kbs div 1024 in
        sprintf_d mbs @ '' MBs'')"

subsection \<open>Snapshots: record, StatsRecord, getMapVal, collectStats\<close>

record record_t =
  timestamp :: Time
  total_f :: datarec

record StatsRecord =
  Records :: "record_t array5"

text \<open>The zero values of \<^verbatim>\<open>var recv StatsRecord\<close>.\<close>

definition zero_record :: record_t where
  "zero_record = \<lparr>timestamp = zeroTime, total_f = zero_datarec\<rparr>"

definition zero_StatsRecord :: StatsRecord where
  "zero_StatsRecord =
     \<lparr>Records = Array5 zero_record zero_record zero_record zero_record zero_record\<rparr>"

text \<open>
  What the code reads from outside: \<^verbatim>\<open>time.Now()\<close> and \<^verbatim>\<open>m.Lookup(&key, &perCpuValues)\<close>
  on the BPF map, both as functions of a state \<open>'w\<close> of the outside world that they may
  change. \<open>Lookup\<close> gives the decoded per-CPU values, or an error and then leaves
  \<^verbatim>\<open>perCpuValues\<close> alone.
\<close>

record 'w env =
  Now :: "'w \<Rightarrow> Time \<times> 'w"
  Lookup :: "32 word \<Rightarrow> 'w \<Rightarrow> (error + datarec list) \<times> 'w"

text \<open>The loop \<^verbatim>\<open>for _, d := range perCpuValues\<close> of getMapVal.\<close>

fun sum_values :: "datarec \<Rightarrow> datarec list \<Rightarrow> datarec" where
  "sum_values valueSum [] = valueSum"
| "sum_values valueSum (d # ds) =
     sum_values (valueSum\<lparr>rxPackets := rxPackets valueSum + rxPackets d,
                           rxBytes := rxBytes valueSum + rxBytes d\<rparr>) ds"

text \<open>
  getMapVal writes into \<^verbatim>\<open>stat.Records[key]\<close> in place: the timestamp before the lookup,
  the totals after it. The result carries the record as the call leaves it, also when the
  call returns an error.
\<close>

definition getMapVal ::
  "'w env \<Rightarrow> 32 word \<Rightarrow> StatsRecord \<Rightarrow> 'w \<Rightarrow> panic + (error option \<times> StatsRecord \<times> 'w)" where
  "getMapVal E key stat w =
     (case a5_get (Records stat) (unat key) of
        None \<Rightarrow> Inl (Panic ''index out of range'')
      | Some r \<Rightarrow>
          (let (t, w1) = Now E w;
               r1 = r\<lparr>timestamp := t\<rparr>;
               stat1 = stat\<lparr>Records := a5_set (Records stat) (unat key) r1\<rparr>;
               (res, w2) = Lookup E key w1
           in case res of
                Inl err \<Rightarrow> Inr (Some err, stat1, w2)
              | Inr perCpuValues \<Rightarrow>
                  (let valueSum = sum_values zero_datarec perCpuValues;
                       r2 = r1\<lparr>total_f := (total_f r1)\<lparr>rxBytes := rxBytes valueSum,
                                                       rxPackets := rxPackets valueSum\<rparr>\<rparr>
                   in Inr (None, stat1\<lparr>Records := a5_set (Records stat1) (unat key) r2\<rparr>, w2))))"

text \<open>The loop \<^verbatim>\<open>for action = 0; action < 5; action++\<close> of collectStats.\<close>

function collect_loop ::
  "'w env \<Rightarrow> 32 word \<Rightarrow> StatsRecord \<Rightarrow> 'w \<Rightarrow> panic + (error option \<times> StatsRecord \<times> 'w)" where
  "collect_loop E action rec w =
     (if action < 5 then
        (case getMapVal E action rec w of
           Inl p \<Rightarrow> Inl p
         | Inr (Some err, rec', w') \<Rightarrow> Inr (Some err, rec', w')
         | Inr (None, rec', w') \<Rightarrow> collect_loop E (action + 1) rec' w')
      else Inr (None, rec, w))"
  by pat_completeness auto
termination
proof (relation "measure (\<lambda>(E, action, rec, w). 5 - unat action)")
  show "wf (measure (\<lambda>(E, action, rec, w). 5 - unat action))"
    by simp
next
  fix E :: "'w env" and action :: "32 word" and rec w x2 x1 x2a x1a x2b
  assume "action < 5"
  then have "unat action < 5"
    by (simp add: word_less_nat_alt)
  then have "unat (action + 1) = unat action + 1"
    by (simp add: unat_word_ariths)
  with \<open>unat action < 5\<close>
  show "((E, action + 1, x1a, x2b), (E, action, rec, w))
          \<in> measure (\<lambda>(E, action, rec, w). 5 - unat action)"
    by simp
qed

declare collect_loop.simps [simp del]

definition collectStats ::
  "'w env \<Rightarrow> StatsRecord \<Rightarrow> 'w \<Rightarrow> panic + (error option \<times> StatsRecord \<times> 'w)" where
  "collectStats E rec w = collect_loop E 0 rec w"

subsection \<open>calcStats\<close>

record stats =
  Packets :: string
  PPs :: string
  Bytes :: string
  BPs :: string
  Period :: string

text \<open>
  The body of the loop of calcStats, for the slot's two records: \<open>slot_period\<close> is the
  local \<^verbatim>\<open>period\<close>, \<open>slot_pps\<close> the local \<^verbatim>\<open>pps\<close>, \<open>slot_stats\<close> the \<^verbatim>\<open>stats\<close> value
  stored in \<^verbatim>\<open>s[i]\<close>. The subtractions are on \<^verbatim>\<open>uint64\<close> and wrap around.
\<close>

definition slot_period :: "record_t \<Rightarrow> record_t \<Rightarrow> f64" where
  "slot_period prev rec = Seconds (Sub (timestamp rec) (timestamp prev))"

definition slot_pps :: "record_t \<Rightarrow> record_t \<Rightarrow> f64" where
  "slot_pps prev rec =
     f64_div (u64_to_f64 (rxPackets (total_f rec) - rxPackets (total_f prev)))
       (slot_period prev rec)"

definition slot_stats :: "record_t \<Rightarrow> record_t \<Rightarrow> stats" where
  "slot_stats prev rec =
     (let period = slot_period prev rec;
          pps = slot_pps prev rec;
          bytes = u64_to_f64 (rxBytes (total_f rec) - rxBytes (total_f prev));
          speed = calculateSpeed bytes period
      in \<lparr>Packets = sprintf_d (rxPackets (total_f rec)),
          PPs = sprintf_f 10 0 pps @ '' pps'',
          Bytes = formatBytes (rxBytes (total_f rec)),
          BPs = speed,
          Period = sprintf_f 0 6 period\<rparr>)"

text \<open>The loop \<^verbatim>\<open>for i := 0; i < 5; i++\<close>; \<^verbatim>\<open>s\<close> starts as five nil pointers.\<close>

function calc_loop ::
  "StatsRecord \<Rightarrow> StatsRecord \<Rightarrow> nat \<Rightarrow> stats option array5 \<Rightarrow> panic + stats option array5" where
  "calc_loop prev recv i s =
     (if i < 5 then
        (case a5_get (Records recv) i of
           None \<Rightarrow> Inl (Panic ''index out of range'')
         | Some rec \<Rightarrow>
             (case a5_get (Records prev) i of
                None \<Rightarrow> Inl (Panic ''index out of range'')
              | Some prv \<Rightarrow> calc_loop prev recv (i + 1) (a5_set s i (Some (slot_stats prv rec)))))
      else Inr s)"
  by pat_completeness auto
termination
  by (relation "measure (\<lambda>(prev, recv, i, s). 5 - i)") auto

declare calc_loop.simps [simp del]

definition calcStats :: "StatsRecord \<Rightarrow> StatsRecord \<Rightarrow> panic + stats option array5" where
  "calcStats prev recv = calc_loop prev recv 0 (Array5 None None None None None)"

subsection \<open>updateTable\<close>

text \<open>
  \<^verbatim>\<open>table.Rows\<close>, a slice of slices of strings; the rows of the table that RenderStats
  builds are six separate slices. An assignment \<^verbatim>\<open>table.Rows[r][c] = rhs\<close> panics when
  \<open>r\<close> or \<open>c\<close> is out of range, or when evaluating \<open>rhs\<close> panics.
\<close>

type_synonym table = "string list list"

definition assign_cell :: "table \<Rightarrow> nat \<Rightarrow> nat \<Rightarrow> panic + string \<Rightarrow> panic + table" where
  "assign_cell rows r c rhs =
     (if \<not> r < length rows then Inl (Panic ''index out of range'')
      else case rhs of
             Inl p \<Rightarrow> Inl p
           | Inr v \<Rightarrow>
               if \<not> c < length (rows ! r) then Inl (Panic ''index out of range'')
               else Inr (rows[r := (rows ! r)[c := v]]))"

text \<open>Reading a field through \<^verbatim>\<open>s *stats\<close>; a nil pointer panics.\<close>

definition field :: "stats option \<Rightarrow> (stats \<Rightarrow> string) \<Rightarrow> panic + string" where
  "field s f = (case s of None \<Rightarrow> Inl (Panic ''nil pointer dereference'') | Some st \<Rightarrow> Inr (f st))"

definition update_row :: "stats option \<Rightarrow> nat \<Rightarrow> table \<Rightarrow> panic + table" where
  "update_row s i rows =
     (case assign_cell rows (i + 1) 0 (action2str (of_nat i)) of Inl p \<Rightarrow> Inl p | Inr t0 \<Rightarrow>
      case assign_cell t0 (i + 1) 1 (field s Packets) of Inl p \<Rightarrow> Inl p | Inr t1 \<Rightarrow>
      case assign_cell t1 (i + 1) 2 (field s PPs) of Inl p \<Rightarrow> Inl p | Inr t2 \<Rightarrow>
      case assign_cell t2 (i + 1) 3 (field s Bytes) of Inl p \<Rightarrow> Inl p | Inr t3 \<Rightarrow>
      case assign_cell t3 (i + 1) 4 (field s BPs) of Inl p \<Rightarrow> Inl p | Inr t4 \<Rightarrow>
      assign_cell t4 (i + 1) 5 (field s Period))"

text \<open>The loop \<^verbatim>\<open>for i := 0; i < len(stats); i++\<close>, with \<^verbatim>\<open>len(stats)\<close> = 5.\<close>

function update_loop :: "stats option array5 \<Rightarrow> nat \<Rightarrow> table \<Rightarrow> panic + table" where
  "update_loop sts i rows =
     (if i < 5 then
        (case a5_get sts i of
           None \<Rightarrow> Inl (Panic ''index out of range'')
         | Some s \<Rightarrow>
             (case update_row s i rows of
                Inl p \<Rightarrow> Inl p
              | Inr rows' \<Rightarrow> update_loop sts (i + 1) rows'))
      else Inr rows)"
  by pat_completeness auto
termination
  by (relation "measure (\<lambda>(sts, i, rows). 5 - i)") auto

declare update_loop.simps [simp del]

definition updateTable :: "stats option array5 \<Rightarrow> table \<Rightarrow> panic + table" where
  "updateTable sts rows = update_loop sts 0 rows"

subsection \<open>RenderStats\<close>

text \<open>
  What the \<^verbatim>\<open>select\<close> of the loop receives, in the order it receives it: a tick of the
  ticker, or a terminal event with its \<^verbatim>\<open>ID\<close>.
\<close>

datatype event = Tick | UiEvent string

text \<open>
  How a run over a finite sequence of events ends: RenderStats has returned (with an error
  or nil), it has panicked, or it is blocked in the \<^verbatim>\<open>select\<close> with every event consumed.
\<close>

datatype outcome = Returned "error option" | Panicked panic | Waiting

text \<open>
  For every tick that reaches \<^verbatim>\<open>ui.Render\<close>, the run records the two arguments of
  calcStats and the rows of the table handed to \<^verbatim>\<open>ui.Render\<close>.
\<close>

record tick_log =
  used_prev :: StatsRecord
  used_recv :: StatsRecord
  rendered :: table

text \<open>The rows of the table literal; the empty string is \<open>[]\<close>.\<close>

definition initial_rows :: table where
  "initial_rows =
     [[''Action'', ''Total Packets'', ''Packets Per Sec'', ''Total Bytes'', ''Speed (Mbps)'', ''Period''],
      [[], [], [], [], [], []],
      [[], [], [], [], [], []],
      [[], [], [], [], [], []],
      [[], [], [], [], [], []],
      [[], [], [], [], [], []]]"

text \<open>
  The \<^verbatim>\<open>for\<close> loop of RenderStats. Each iteration declares \<^verbatim>\<open>recv\<close> and \<^verbatim>\<open>prev\<close>
  anew, collects into \<^verbatim>\<open>recv\<close>, and then waits in the \<^verbatim>\<open>select\<close>. On a tick it copies
  \<^verbatim>\<open>recv.Records\<close> into \<^verbatim>\<open>prev.Records\<close>, collects into \<^verbatim>\<open>recv\<close> again, and
  renders the table that updateTable returns. Between iterations only the table and the
  outside world remain.
\<close>

fun render_loop ::
  "'w env \<Rightarrow> event list \<Rightarrow> table \<Rightarrow> 'w \<Rightarrow> outcome \<times> table \<times> 'w \<times> tick_log list" where
  "render_loop E evs rows w =
     (case collectStats E zero_StatsRecord w of
        Inl p \<Rightarrow> (Panicked p, rows, w, [])
      | Inr (Some err, recv, w1) \<Rightarrow>
          (Returned (Some (Wrapped ''error collecting stats: '' err)), rows, w1, [])
      | Inr (None, recv, w1) \<Rightarrow>
          (case evs of
             [] \<Rightarrow> (Waiting, rows, w1, [])
           | Tick # rest \<Rightarrow>
               (let prev = zero_StatsRecord\<lparr>Records := Records recv\<rparr> in
                case collectStats E recv w1 of
                  Inl p \<Rightarrow> (Panicked p, rows, w1, [])
                | Inr (Some err, recv', w2) \<Rightarrow>
                    (Returned (Some (Wrapped ''error collecting stats: '' err)), rows, w2, [])
                | Inr (None, recv', w2) \<Rightarrow>
                    (case calcStats prev recv' of
                       Inl p \<Rightarrow> (Panicked p, rows, w2, [])
                     | Inr sts \<Rightarrow>
                         (case updateTable sts rows of
                            Inl p \<Rightarrow> (Panicked p, rows, w2, [])
                          | Inr rows' \<Rightarrow>
                              (case render_loop E rest rows' w2 of
                                 (out, rows2, w', logs) \<Rightarrow>
                                   (out, rows2, w',
                                    \<lparr>used_prev = prev, used_recv = recv', rendered = rows'\<rparr>
                                      # logs)))))
           | UiEvent ident # rest \<Rightarrow>
               if ident = ''q'' \<or> ident = ''<C-c>'' then (Returned None, rows, w1, [])
               else render_loop E rest rows w1))"

declare render_loop.simps [simp del]

text \<open>
  RenderStats: \<^verbatim>\<open>ui.Init()\<close> first, whose result is the parameter \<open>ui_init\<close>; then the
  table and the loop.
\<close>

definition RenderStats ::
  "'w env \<Rightarrow> error option \<Rightarrow> event list \<Rightarrow> 'w \<Rightarrow> outcome \<times> table \<times> 'w \<times> tick_log list" where
  "RenderStats E ui_init evs w =
     (case ui_init of
        Some err \<Rightarrow> (Returned (Some err), [], w, [])
      | None \<Rightarrow> render_loop E evs initial_rows w)"

subsection \<open>The outside world along the two loops\<close>

text \<open>
  What getMapVal reads from outside for one slot: the clock, and then the map in the state
  that reading the clock has left.
\<close>

definition read_slot :: "'w env \<Rightarrow> 32 word \<Rightarrow> 'w \<Rightarrow> Time \<times> (error + datarec list) \<times> 'w" where
  "read_slot E key w =
     (let (t, w1) = Now E w;
          (res, w2) = Lookup E key w1
      in (t, res, w2))"

text \<open>
  The state of the outside world in which the loop of collectStats, started in state \<open>w\<close>,
  reads slot \<open>k\<close>: the state that the reads of the slots 0 to \<open>k - 1\<close> have left.
\<close>

fun slot_world :: "'w env \<Rightarrow> nat \<Rightarrow> 'w \<Rightarrow> 'w" where
  "slot_world E 0 w = w"
| "slot_world E (Suc j) w = snd (snd (read_slot E (of_nat j) (slot_world E j w)))"

text \<open>
  The table and the state of the outside world with which the loop of RenderStats, started
  with \<open>rows\<close> and \<open>w\<close>, begins its next iteration once it has received the events
  \<open>evs\<close>; \<open>None\<close> when RenderStats has returned or panicked before. This is \<open>render_loop\<close>
  with nothing kept but what one iteration hands to the next.
\<close>

fun iteration_start :: "'w env \<Rightarrow> event list \<Rightarrow> table \<Rightarrow> 'w \<Rightarrow> (table \<times> 'w) option" where
  "iteration_start E [] rows w = Some (rows, w)"
| "iteration_start E (ev # rest) rows w =
     (case collectStats E zero_StatsRecord w of
        Inl p \<Rightarrow> None
      | Inr (Some err, recv, w1) \<Rightarrow> None
      | Inr (None, recv, w1) \<Rightarrow>
          (case ev of
             Tick \<Rightarrow>
               (case collectStats E recv w1 of
                  Inl p \<Rightarrow> None
                | Inr (Some err, recv', w2) \<Rightarrow> None
                | Inr (None, recv', w2) \<Rightarrow>
                    (case calcStats recv recv' of
                       Inl p \<Rightarrow> None
                     | Inr sts \<Rightarrow>
                         (case updateTable sts rows of
                            Inl p \<Rightarrow> None
                          | Inr rows' \<Rightarrow> iteration_start E rest rows' w2)))
           | UiEvent ident \<Rightarrow>
               if ident = ''q'' \<or> ident = ''<C-c>'' then None
               else iteration_start E rest rows w1))"

subsection \<open>Two environments for concrete runs\<close>

text \<open>
  The state of the outside world is a counter that every reading of the clock and every
  lookup advances. In \<open>counting_env\<close> the clock shows one second per step of the counter
  and the map holds, on one CPU, as many packets as the counter says; a collection that
  starts at counter \<open>w\<close> gives \<open>counting_snapshot w\<close>. In \<open>failing_env\<close> the lookup of
  key 1 fails once the counter has reached 10.
\<close>

definition counting_env :: "int env" where
  "counting_env =
     \<lparr>Now = (\<lambda>w. (w * 1000000000, w + 1)),
      Lookup = (\<lambda>key w. (Inr [\<lparr>rxPackets = word_of_int w, rxBytes = word_of_int (1000 * w)\<rparr>],
                           w + 1))\<rparr>"




text \<open>The components of the result of a run.\<close>

definition run_outcome :: "outcome \<times> table \<times> 'w \<times> tick_log list \<Rightarrow> outcome" where
  "run_outcome r = fst r"

definition run_rows :: "outcome \<times> table \<times> 'w \<times> tick_log list \<Rightarrow> table" where
  "run_rows r = fst (snd r)"

definition run_world :: "outcome \<times> table \<times> 'w \<times> tick_log list \<Rightarrow> 'w" where
  "run_world r = fst (snd (snd r))"

definition run_logs :: "outcome \<times> table \<times> 'w \<times> tick_log list \<Rightarrow> tick_log list" where
  "run_logs r = snd (snd (snd r))"

text \<open>Five rows of cell texts for a concrete call of updateTable.\<close>

definition example_stats :: "stats option array5" where
  "example_stats =
     Array5 (Some \<lparr>Packets = ''10'', PPs = ''1 pps'', Bytes = ''0 KBs'', BPs = ''8 Kbits/s'', Period = ''1.0''\<rparr>)
       (Some \<lparr>Packets = ''11'', PPs = ''1 pps'', Bytes = ''0 KBs'', BPs = ''8 Kbits/s'', Period = ''1.0''\<rparr>)
       (Some \<lparr>Packets = ''12'', PPs = ''1 pps'', Bytes = ''0 KBs'', BPs = ''8 Kbits/s'', Period = ''1.0''\<rparr>)
       (Some \<lparr>Packets = ''13'', PPs = ''1 pps'', Bytes = ''0 KBs'', BPs = ''8 Kbits/s'', Period = ''1.0''\<rparr>)
       (Some \<lparr>Packets = ''14'', PPs = ''1 pps'', Bytes = ''0 KBs'', BPs = ''8 Kbits/s'', Period = ''1.0''\<rparr>)"

definition example_rows :: table where
  "example_rows =
     [[''Action'', ''Total Packets'', ''Packets Per Sec'', ''Total Bytes'', ''Speed (Mbps)'', ''Period''],
      [''XDP_ABORT'', ''10'', ''1 pps'', ''0 KBs'', ''8 Kbits/s'', ''1.0''],
      [''XDP_DROP'', ''11'', ''1 pps'', ''0 KBs'', ''8 Kbits/s'', ''1.0''],
      [''XDP_PASS'', ''12'', ''1 pps'', ''0 KBs'', ''8 Kbits/s'', ''1.0''],
      [''XDP_TX'', ''13'', ''1 pps'', ''0 KBs'', ''8 Kbits/s'', ''1.0''],
      [''XDP_REDIRECT'', ''14'', ''1 pps'', ''0 KBs'', ''8 Kbits/s'', ''1.0'']]"

text \<open>The shape of the table: six rows of six cells.\<close>

definition six_by_six :: "table \<Rightarrow> bool" where
  "six_by_six rows = (map length rows = [6, 6, 6, 6, 6, 6])"

section \<open>Properties\<close>

subsection \<open>Decoding a record\<close>

lemma byte_bit_high: "8 \<le> m \<Longrightarrow> bit (w :: 8 word) m = False"
  using bit_imp_le_length [of w m] by auto

text \<open>
  Little-endian: bit \<open>n\<close> of the value is bit \<open>n mod 8\<close> of the byte at index
  \<open>n div 8\<close>.
\<close>

lemma le_uint64_bit:
  "bit (le_uint64 b) n = (n < 64 \<and> bit (b ! (n div 8)) (n mod 8))"
proof -
  consider "n < 8" | "8 \<le> n" "n < 16" | "16 \<le> n" "n < 24" | "24 \<le> n" "n < 32"
    | "32 \<le> n" "n < 40" | "40 \<le> n" "n < 48" | "48 \<le> n" "n < 56" | "56 \<le> n" "n < 64"
    | "64 \<le> n"
    by linarith
  then show ?thesis
  proof cases
    case 1
    then have "n div 8 = 0" "n mod 8 = n" by simp_all
    with 1 show ?thesis by (simp add: le_uint64_def bit_simps)
  next
    case 2
    then have "n div 8 = 1" "n mod 8 = n - 8" "n - 8 < 64"
      by presburger+
    with 2 show ?thesis
      by (simp add: le_uint64_def bit_simps byte_bit_high)
  next
    case 3
    then have "n div 8 = 2" "n mod 8 = n - 16" "n - 16 < 64"
      by presburger+
    with 3 show ?thesis
      by (simp add: le_uint64_def bit_simps byte_bit_high)
  next
    case 4
    then have "n div 8 = 3" "n mod 8 = n - 24" "n - 24 < 64"
      by presburger+
    with 4 show ?thesis
      by (simp add: le_uint64_def bit_simps byte_bit_high)
  next
    case 5
    then have "n div 8 = 4" "n mod 8 = n - 32" "n - 32 < 64"
      by presburger+
    with 5 show ?thesis
      by (simp add: le_uint64_def bit_simps byte_bit_high)
  next
    case 6
    then have "n div 8 = 5" "n mod 8 = n - 40" "n - 40 < 64"
      by presburger+
    with 6 show ?thesis
      by (simp add: le_uint64_def bit_simps byte_bit_high)
  next
    case 7
    then have "n div 8 = 6" "n mod 8 = n - 48" "n - 48 < 64"
      by presburger+
    with 7 show ?thesis
      by (simp add: le_uint64_def bit_simps byte_bit_high)
  next
    case 8
    then have "n div 8 = 7" "n mod 8 = n - 56" "n - 56 < 64"
      by presburger+
    with 8 show ?thesis
      by (simp add: le_uint64_def bit_simps byte_bit_high)
  next
    case 9
    then show ?thesis by (simp add: le_uint64_def bit_simps)
  qed
qed

lemma UnmarshalBinary_long:
  "16 \<le> length p \<Longrightarrow>
   UnmarshalBinary p d =
     (None, \<lparr>rxPackets = le_uint64 (take 8 p), rxBytes = le_uint64 (take 8 (drop 8 p))\<rparr>)"
  by (simp add: UnmarshalBinary_def binary_Read_def)

lemma UnmarshalBinary_error:
  "fst (UnmarshalBinary p d) =
     (if 16 \<le> length p then None
      else if length p = 0 \<or> length p = 8 then Some EOF
      else Some ErrUnexpectedEOF)"
  by (auto simp add: UnmarshalBinary_def binary_Read_def Let_def split: prod.splits sum.splits)

lemma le_uint64_example: "le_uint64 [1, 0, 0, 0, 0, 0, 0, 0] = 1" "le_uint64 [2, 0, 0, 0, 0, 0, 0, 0] = 2"
  by (simp_all add: le_uint64_def)

text \<open>
  C7, as the code has it. Decoding reads two 8-byte little-endian unsigned integers,
  packets then bytes, from the front of the buffer. It fails exactly on the buffers shorter
  than 16 bytes: with \<^verbatim>\<open>io.EOF\<close> when nothing is left for the integer it reads (0 or 8
  bytes), with \<^verbatim>\<open>io.ErrUnexpectedEOF\<close> otherwise. Every buffer of 16 bytes or more is
  accepted. The 16 bytes \<open>01 00 .. 00 02 00 .. 00\<close> decode to packets 1 and bytes 2, and
  their first 15 bytes fail to decode.
\<close>

theorem unmarshal_rejects_exactly_short_buffers:
  "fst (UnmarshalBinary p d) =
     (if 16 \<le> length p then None
      else if length p = 0 \<or> length p = 8 then Some EOF
      else Some ErrUnexpectedEOF)
   \<and> UnmarshalBinary [1, 0, 0, 0, 0, 0, 0, 0, 2, 0, 0, 0, 0, 0, 0, 0] d
       = (None, \<lparr>rxPackets = 1, rxBytes = 2\<rparr>)
   \<and> fst (UnmarshalBinary [1, 0, 0, 0, 0, 0, 0, 0, 2, 0, 0, 0, 0, 0, 0] d)
       = Some ErrUnexpectedEOF"
  by (simp add: UnmarshalBinary_error UnmarshalBinary_long le_uint64_example)

text \<open>
  C7 as stated fails: a buffer of 17 bytes is not two 8-byte integers, and it is decoded
  without an error.
\<close>

theorem unmarshal_accepts_17_bytes:
  "length [1, 0, 0, 0, 0, 0, 0, 0, 2, 0, 0, 0, 0, 0, 0, 0, 255 :: 8 word] = 17
   \<and> UnmarshalBinary [1, 0, 0, 0, 0, 0, 0, 0, 2, 0, 0, 0, 0, 0, 0, 0, 255] zero_datarec
       = (None, \<lparr>rxPackets = 1, rxBytes = 2\<rparr>)"
  by (simp add: UnmarshalBinary_long le_uint64_example)

text \<open>
  C10. For a buffer of at least 16 bytes decoding succeeds; packets is the little-endian
  value of bytes 0 to 7 and bytes that of bytes 8 to 15; the result is the result for the
  first 16 bytes alone, so two buffers that agree there decode alike.
\<close>

theorem unmarshal_reads_first_16_bytes:
  assumes "16 \<le> length p"
  shows "UnmarshalBinary p d =
           (None, \<lparr>rxPackets = le_uint64 (take 8 p), rxBytes = le_uint64 (take 8 (drop 8 p))\<rparr>)
         \<and> (\<forall>n. bit (rxPackets (snd (UnmarshalBinary p d))) n
                   = (n < 64 \<and> bit (p ! (n div 8)) (n mod 8)))
         \<and> (\<forall>n. bit (rxBytes (snd (UnmarshalBinary p d))) n
                   = (n < 64 \<and> bit (p ! (8 + n div 8)) (n mod 8)))
         \<and> UnmarshalBinary p d = UnmarshalBinary (take 16 p) d
         \<and> (\<forall>p'. take 16 p' = take 16 p \<longrightarrow> UnmarshalBinary p' d = UnmarshalBinary p d)"
proof -
  have eq: "UnmarshalBinary p d =
      (None, \<lparr>rxPackets = le_uint64 (take 8 p), rxBytes = le_uint64 (take 8 (drop 8 p))\<rparr>)"
    using assms by (rule UnmarshalBinary_long)
  have idx: "n < 64 \<Longrightarrow> take 8 p ! (n div 8) = p ! (n div 8)
      \<and> take 8 (drop 8 p) ! (n div 8) = p ! (8 + n div 8)" for n :: nat
    using assms by (simp add: less_mult_imp_div_less)
  have packets: "bit (rxPackets (snd (UnmarshalBinary p d))) n
      = (n < 64 \<and> bit (p ! (n div 8)) (n mod 8))" for n
    using idx [of n] by (auto simp add: eq le_uint64_bit)
  have bytes: "bit (rxBytes (snd (UnmarshalBinary p d))) n
      = (n < 64 \<and> bit (p ! (8 + n div 8)) (n mod 8))" for n
    using idx [of n] by (auto simp add: eq le_uint64_bit)
  have only16: "UnmarshalBinary q d = UnmarshalBinary (take 16 q) d" if "16 \<le> length q" for q
  proof -
    have "take 8 (take 16 q) = take 8 q" "take 8 (drop 8 (take 16 q)) = take 8 (drop 8 q)"
      by (simp_all add: drop_take min_def)
    with that show ?thesis
      by (simp add: UnmarshalBinary_long)
  qed
  have agree: "UnmarshalBinary p' d = UnmarshalBinary p d" if "take 16 p' = take 16 p" for p'
  proof -
    have "length (take 16 p') = 16"
      using assms that by simp
    then have "16 \<le> length p'"
      by simp
    then show ?thesis
      using only16 [of p'] only16 [of p] assms that by simp
  qed
  show ?thesis
    using eq packets bytes only16 [OF assms] agree by blast
qed

theorem unmarshal_reads_first_16_bytes_witness:
  "16 \<le> length [7, 0, 0, 0, 0, 0, 0, 0, 0, 1, 0, 0, 0, 0, 0, 0, 9, 9 :: 8 word]
   \<and> UnmarshalBinary [7, 0, 0, 0, 0, 0, 0, 0, 0, 1, 0, 0, 0, 0, 0, 0, 9, 9] zero_datarec
       = (None, \<lparr>rxPackets = 7, rxBytes = 256\<rparr>)"
proof -
  have h: "16 \<le> length [7, 0, 0, 0, 0, 0, 0, 0, 0, 1, 0, 0, 0, 0, 0, 0, 9, 9 :: 8 word]"
    by simp
  have v: "le_uint64 [7, 0, 0, 0, 0, 0, 0, 0] = 7" "le_uint64 [0, 1, 0, 0, 0, 0, 0, 0] = 256"
    by (simp_all add: le_uint64_def)
  show ?thesis
    using unmarshal_reads_first_16_bytes [OF h, of zero_datarec] v by simp
qed

subsection \<open>Slot names\<close>

text \<open>
  C8. action2str is total on 0..4, where it returns the name of the slot, and panics on
  every other index.
\<close>

theorem action2str_total_on_slots:
  "action2str act =
     (if act < 5
      then Inr ([''XDP_ABORT'', ''XDP_DROP'', ''XDP_PASS'', ''XDP_TX'', ''XDP_REDIRECT''] ! unat act)
      else Inl (Panic ''invalid input''))"
proof (cases "act < 5")
  case True
  then have "unat act < 5"
    by (simp add: word_less_nat_alt)
  then have "unat act = 0 \<or> unat act = 1 \<or> unat act = 2 \<or> unat act = 3 \<or> unat act = 4"
    by arith
  then have "act = 0 \<or> act = 1 \<or> act = 2 \<or> act = 3 \<or> act = 4"
    by (simp add: word_unat_eq_iff)
  then show ?thesis
    by (auto simp: action2str_def)
next
  case False
  then have "act \<noteq> 0" "act \<noteq> 1" "act \<noteq> 2" "act \<noteq> 3" "act \<noteq> 4"
    by auto
  with False show ?thesis
    by (simp add: action2str_def)
qed

subsection \<open>Unit scaling\<close>

lemma div_1024_less: "((x::int) div 1024 < 1024) = (x < 1048576)"
proof -
  define q r where "q = x div 1024" and "r = x mod 1024"
  have "x = 1024 * q + r" "0 \<le> r" "r < 1024"
    by (simp_all add: q_def r_def)
  then show ?thesis
    unfolding q_def [symmetric] by linarith
qed

lemma formatBytes_eq:
  "formatBytes b =
     (if uint b < 1048576 then itoa (uint b div 1024) @ '' KBs''
      else itoa (uint b div 1048576) @ '' MBs'')"
proof -
  have "uint b div 1024 div 1024 = uint b div 1048576"
    by (simp add: zdiv_zmult2_eq [symmetric])
  then show ?thesis
    by (simp add: formatBytes_def Let_def sprintf_d_def word_less_def uint_div_distrib
        div_1024_less)
qed

lemma formatBytes_examples:
  "formatBytes 1023 = ''0 KBs''" "formatBytes 1024 = ''1 KBs''"
  "formatBytes (1024 * 1024) = ''1 MBs''"
  by code_simp+

lemma sprintf_999: "sprintf_f 6 0 (Finite 999) = ''   999''"
  by code_simp

lemma sprintf_1: "sprintf_f 6 0 (f64_div (Finite 1000) (Finite 1000)) = ''     1''"
  by code_simp

text \<open>
  C5, as the code has it. The bit rate is printed with \<^verbatim>\<open>%6.0f\<close>, right-aligned in six
  characters: a Kbit/s value of 999 renders as \<open>''   999 Kbits/s''\<close> and a value of 1000 as
  \<open>''     1 Mbits/s''\<close>. The byte total is divided as an integer: 1023 bytes render as
  \<open>''0 KBs''\<close>, 1024 as \<open>''1 KBs''\<close>, 1024 * 1024 as \<open>''1 MBs''\<close>.
\<close>

theorem unit_scaling_padded:
  "(speed_kbps bytes period = Finite 999 \<longrightarrow> calculateSpeed bytes period = ''   999 Kbits/s'')
   \<and> (speed_kbps bytes period = Finite 1000 \<longrightarrow> calculateSpeed bytes period = ''     1 Mbits/s'')
   \<and> formatBytes 1023 = ''0 KBs''
   \<and> formatBytes 1024 = ''1 KBs''
   \<and> formatBytes (1024 * 1024) = ''1 MBs''
   \<and> formatBytes b =
       (if uint b < 1048576 then itoa (uint b div 1024) @ '' KBs''
        else itoa (uint b div 1048576) @ '' MBs'')"
proof -
  have k: "calculateSpeed bytes period = ''   999 Kbits/s''"
    if "speed_kbps bytes period = Finite 999"
    using that by (simp add: calculateSpeed_def sprintf_999)
  have m: "calculateSpeed bytes period = ''     1 Mbits/s''"
    if "speed_kbps bytes period = Finite 1000"
    using that by (simp add: calculateSpeed_def sprintf_1)
  show ?thesis
    using k m formatBytes_examples formatBytes_eq [of b] by blast
qed

lemma kbps_999: "speed_kbps (u64_to_f64 124875) (Seconds 1000000000) = Finite 999"
  by code_simp

lemma kbps_1000: "speed_kbps (u64_to_f64 125000) (Seconds 1000000000) = Finite 1000"
  by code_simp

theorem unit_scaling_padded_witness:
  "speed_kbps (u64_to_f64 124875) (Seconds 1000000000) = Finite 999
   \<and> calculateSpeed (u64_to_f64 124875) (Seconds 1000000000) = ''   999 Kbits/s''
   \<and> speed_kbps (u64_to_f64 125000) (Seconds 1000000000) = Finite 1000
   \<and> calculateSpeed (u64_to_f64 125000) (Seconds 1000000000) = ''     1 Mbits/s''"
  using unit_scaling_padded [of "u64_to_f64 124875" "Seconds 1000000000" 0]
    unit_scaling_padded [of "u64_to_f64 125000" "Seconds 1000000000" 0]
    kbps_999 kbps_1000
  by blast

text \<open>
  C5 as stated fails: for 124875 bytes in one second the Kbit/s value is 999, and the string
  is not \<open>''999 Kbits/s''\<close>; for 125000 bytes it is 1000, and the string is not
  \<open>''1 Mbits/s''\<close>.
\<close>

theorem unit_scaling_unpadded_fails:
  "speed_kbps (u64_to_f64 124875) (Seconds 1000000000) = Finite 999
   \<and> calculateSpeed (u64_to_f64 124875) (Seconds 1000000000) \<noteq> ''999 Kbits/s''
   \<and> speed_kbps (u64_to_f64 125000) (Seconds 1000000000) = Finite 1000
   \<and> calculateSpeed (u64_to_f64 125000) (Seconds 1000000000) \<noteq> ''1 Mbits/s''"
  by (simp add: kbps_999 kbps_1000 calculateSpeed_def sprintf_999 sprintf_1)

subsection \<open>Arrays\<close>

lemma a5_get_Some: "i < 5 \<Longrightarrow> \<exists>x. a5_get a i = Some x"
  by (cases a) auto



lemma a5_set_set: "a5_set (a5_set a i v) i v' = a5_set a i v'"
  by (cases a) auto

subsection \<open>Collecting\<close>

lemma unat_key_less: "(key :: 32 word) < 5 \<Longrightarrow> unat key < 5"
  by (simp add: word_less_nat_alt)


lemma getMapVal_no_panic: "key < 5 \<Longrightarrow> \<exists>r. getMapVal E key stat w = Inr r"
  using a5_get_Some [OF unat_key_less, of key "Records stat"]
  by (auto simp add: getMapVal_def Let_def split: prod.splits sum.splits)



lemma collect_loop_no_panic: "collect_loop E action rec w \<noteq> Inl p"
proof (induction E action rec w rule: collect_loop.induct)
  case (1 E action rec w)
  show ?case
  proof (cases "action < 5")
    case True
    obtain e rec' w' where g: "getMapVal E action rec w = Inr (e, rec', w')"
      using getMapVal_no_panic [OF True, of E rec w] by (metis prod_cases3)
    show ?thesis
    proof (cases e)
      case None
      with g True "1.IH" [of "(e, rec', w')" e "(rec', w')" rec' w'] show ?thesis
        by (subst collect_loop.simps) simp
    next
      case (Some err)
      with g True show ?thesis
        by (subst collect_loop.simps) simp
    qed
  next
    case False
    then show ?thesis
      by (subst collect_loop.simps) simp
  qed
qed


subsection \<open>calcStats and updateTable\<close>

lemma calcStats_eq:
  "calcStats \<lparr>Records = Array5 p0 p1 p2 p3 p4\<rparr> \<lparr>Records = Array5 r0 r1 r2 r3 r4\<rparr> =
     Inr (Array5 (Some (slot_stats p0 r0)) (Some (slot_stats p1 r1)) (Some (slot_stats p2 r2))
        (Some (slot_stats p3 r3)) (Some (slot_stats p4 r4)))"
  by (simp add: calcStats_def calc_loop.simps)

lemma calcStats_all_Some:
  "\<exists>s0 s1 s2 s3 s4. calcStats prev recv = Inr (Array5 (Some s0) (Some s1) (Some s2) (Some s3) (Some s4))"
proof -
  obtain p0 p1 p2 p3 p4 where p: "prev = \<lparr>Records = Array5 p0 p1 p2 p3 p4\<rparr>"
    by (cases prev, rename_tac a, case_tac a) auto
  obtain r0 r1 r2 r3 r4 where r: "recv = \<lparr>Records = Array5 r0 r1 r2 r3 r4\<rparr>"
    by (cases recv, rename_tac a, case_tac a) auto
  show ?thesis
    unfolding p r calcStats_eq by blast
qed


lemma assign_cell_ok:
  assumes "map length rows = ns" "r < length ns" "c < ns ! r"
  shows "\<exists>rows'. assign_cell rows r c (Inr v) = Inr rows' \<and> map length rows' = ns
           \<and> (\<forall>j. j \<noteq> r \<longrightarrow> rows' ! j = rows ! j)"
proof -
  have l: "r < length rows" "c < length (rows ! r)"
    using assms by (auto simp: nth_map [symmetric] simp del: nth_map)
  have "map length (rows[r := (rows ! r)[c := v]]) = map length rows"
    using l by (simp add: map_update list_update_same_conv)
  then show ?thesis
    using l assms by (simp add: assign_cell_def)
qed

lemma update_row_ok:
  assumes "six_by_six rows" "i < 5"
  shows "\<exists>rows'. update_row (Some st) i rows = Inr rows' \<and> six_by_six rows'
           \<and> (\<forall>j. j \<noteq> i + 1 \<longrightarrow> rows' ! j = rows ! j)"
proof -
  let ?ns = "[6, 6, 6, 6, 6, 6 :: nat]"
  have r: "i + 1 < length ?ns"
    using assms(2) by simp
  have c: "c < 6 \<Longrightarrow> c < ?ns ! (i + 1)" for c
    using assms(2) by (simp add: nth_Cons split: nat.splits)
  have a: "\<exists>name. action2str (of_nat i) = Inr name"
  proof -
    have "i = 0 \<or> i = 1 \<or> i = 2 \<or> i = 3 \<or> i = 4"
      using assms(2) by arith
    then show ?thesis
      by (auto simp: action2str_def)
  qed
  then obtain name where name: "action2str (of_nat i) = Inr name" ..
  have m0: "map length rows = ?ns"
    using assms(1) by (simp add: six_by_six_def)
  obtain t0 where t0: "assign_cell rows (i + 1) 0 (Inr name) = Inr t0" "map length t0 = ?ns"
      "\<forall>j. j \<noteq> i + 1 \<longrightarrow> t0 ! j = rows ! j"
    using assign_cell_ok [OF m0 r c [of 0], of name] by auto
  obtain t1 where t1: "assign_cell t0 (i + 1) 1 (Inr (Packets st)) = Inr t1" "map length t1 = ?ns"
      "\<forall>j. j \<noteq> i + 1 \<longrightarrow> t1 ! j = t0 ! j"
    using assign_cell_ok [OF t0(2) r c [of 1], of "Packets st"] by auto
  obtain t2 where t2: "assign_cell t1 (i + 1) 2 (Inr (PPs st)) = Inr t2" "map length t2 = ?ns"
      "\<forall>j. j \<noteq> i + 1 \<longrightarrow> t2 ! j = t1 ! j"
    using assign_cell_ok [OF t1(2) r c [of 2], of "PPs st"] by auto
  obtain t3 where t3: "assign_cell t2 (i + 1) 3 (Inr (Bytes st)) = Inr t3" "map length t3 = ?ns"
      "\<forall>j. j \<noteq> i + 1 \<longrightarrow> t3 ! j = t2 ! j"
    using assign_cell_ok [OF t2(2) r c [of 3], of "Bytes st"] by auto
  obtain t4 where t4: "assign_cell t3 (i + 1) 4 (Inr (BPs st)) = Inr t4" "map length t4 = ?ns"
      "\<forall>j. j \<noteq> i + 1 \<longrightarrow> t4 ! j = t3 ! j"
    using assign_cell_ok [OF t3(2) r c [of 4], of "BPs st"] by auto
  obtain t5 where t5: "assign_cell t4 (i + 1) 5 (Inr (Period st)) = Inr t5" "map length t5 = ?ns"
      "\<forall>j. j \<noteq> i + 1 \<longrightarrow> t5 ! j = t4 ! j"
    using assign_cell_ok [OF t4(2) r c [of 5], of "Period st"] by auto
  have "update_row (Some st) i rows = Inr t5"
    by (simp only: update_row_def field_def name t0(1) t1(1) t2(1) t3(1) t4(1) t5(1)
        option.case sum.case)
  moreover have "six_by_six t5"
    using t5(2) by (simp add: six_by_six_def)
  moreover have "\<forall>j. j \<noteq> i + 1 \<longrightarrow> t5 ! j = rows ! j"
    using t0(3) t1(3) t2(3) t3(3) t4(3) t5(3) by simp
  ultimately show ?thesis
    by blast
qed

lemma update_loop_ok:
  assumes "six_by_six rows" "i \<le> 5"
    "\<forall>j. i \<le> j \<and> j < 5 \<longrightarrow> (\<exists>st. a5_get sts j = Some (Some st))"
  shows "\<exists>rows'. update_loop sts i rows = Inr rows' \<and> six_by_six rows' \<and> rows' ! 0 = rows ! 0"
  using assms
proof (induction sts i rows rule: update_loop.induct)
  case (1 sts i rows)
  show ?case
  proof (cases "i < 5")
    case True
    then obtain st where st: "a5_get sts i = Some (Some st)"
      using "1.prems"(3) by auto
    obtain rows1 where r1: "update_row (Some st) i rows = Inr rows1" "six_by_six rows1"
        "rows1 ! 0 = rows ! 0"
      using update_row_ok [OF "1.prems"(1) True, of st] by auto
    have "\<exists>rows'. update_loop sts (i + 1) rows1 = Inr rows' \<and> six_by_six rows'
        \<and> rows' ! 0 = rows1 ! 0"
      using "1.IH" [OF True st r1(1) r1(2)] True "1.prems"(3) by simp
    with True st r1 show ?thesis
      by (subst update_loop.simps) auto
  next
    case False
    with "1.prems" show ?thesis
      by (subst update_loop.simps) simp
  qed
qed

lemma updateTable_after_calcStats:
  assumes "six_by_six rows"
  shows "\<exists>sts rows'. calcStats prev recv = Inr sts \<and> updateTable sts rows = Inr rows'
           \<and> six_by_six rows' \<and> rows' ! 0 = rows ! 0"
proof -
  obtain s0 s1 s2 s3 s4
    where c: "calcStats prev recv = Inr (Array5 (Some s0) (Some s1) (Some s2) (Some s3) (Some s4))"
    using calcStats_all_Some by blast
  have "\<forall>j. 0 \<le> j \<and> j < 5 \<longrightarrow>
      (\<exists>st. a5_get (Array5 (Some s0) (Some s1) (Some s2) (Some s3) (Some s4)) j = Some (Some st))"
    by simp
  from update_loop_ok [OF assms _ this] c show ?thesis
    by (simp add: updateTable_def)
qed

subsection \<open>The loop of RenderStats\<close>

lemma collectStats_cases:
  obtains (error) err rec' w' where "collectStats E rec w = Inr (Some err, rec', w')"
  | (ok) rec' w' where "collectStats E rec w = Inr (None, rec', w')"
proof (cases "collectStats E rec w")
  case (Inl p)
  then show ?thesis
    by (simp add: collectStats_def collect_loop_no_panic)
next
  case (Inr r)
  then show ?thesis
    using error ok by (cases r, rename_tac e rec' w', case_tac e) auto
qed

lemma copy_Records: "zero_StatsRecord\<lparr>Records := Records recv\<rparr> = recv"
  by simp

lemma render_loop_first_error:
  assumes "collectStats E zero_StatsRecord w = Inr (Some err, rec', w1)"
  shows "render_loop E evs rows w
           = (Returned (Some (Wrapped ''error collecting stats: '' err)), rows, w1, [])"
  using assms by (subst render_loop.simps) simp

lemma render_loop_Nil:
  assumes "collectStats E zero_StatsRecord w = Inr (None, recv, w1)"
  shows "render_loop E [] rows w = (Waiting, rows, w1, [])"
  using assms by (subst render_loop.simps) simp

lemma render_loop_tick_error:
  assumes "collectStats E zero_StatsRecord w = Inr (None, recv, w1)"
    "collectStats E recv w1 = Inr (Some err, rec', w2)"
  shows "render_loop E (Tick # rest) rows w
           = (Returned (Some (Wrapped ''error collecting stats: '' err)), rows, w2, [])"
  using assms by (subst render_loop.simps) simp

lemma render_loop_tick_ok:
  assumes "collectStats E zero_StatsRecord w = Inr (None, recv, w1)"
    "collectStats E recv w1 = Inr (None, recv', w2)"
    "calcStats recv recv' = Inr sts" "updateTable sts rows = Inr rows'"
  shows "render_loop E (Tick # rest) rows w
           = (run_outcome (render_loop E rest rows' w2), run_rows (render_loop E rest rows' w2),
              run_world (render_loop E rest rows' w2),
              \<lparr>used_prev = recv, used_recv = recv', rendered = rows'\<rparr>
                # run_logs (render_loop E rest rows' w2))"
  using assms
  by (subst render_loop.simps)
    (simp add: Let_def copy_Records run_outcome_def run_rows_def run_world_def run_logs_def
      split: prod.splits)

lemma render_loop_quit:
  assumes "collectStats E zero_StatsRecord w = Inr (None, recv, w1)"
    "ident = ''q'' \<or> ident = ''<C-c>''"
  shows "render_loop E (UiEvent ident # rest) rows w = (Returned None, rows, w1, [])"
  using assms by (subst render_loop.simps) auto

lemma render_loop_other_event:
  assumes "collectStats E zero_StatsRecord w = Inr (None, recv, w1)"
    "ident \<noteq> ''q''" "ident \<noteq> ''<C-c>''"
  shows "render_loop E (UiEvent ident # rest) rows w = render_loop E rest rows w1"
  using assms by (subst render_loop.simps) auto

lemma run_simps:
  "run_outcome (a, b, c, d) = a" "run_rows (a, b, c, d) = b" "run_world (a, b, c, d) = c"
  "run_logs (a, b, c, d) = d"
  by (simp_all add: run_outcome_def run_rows_def run_world_def run_logs_def)

text \<open>
  The table keeps its shape and its header row, what is rendered has them too, and the
  loop does not panic.
\<close>

lemma render_loop_table:
  assumes "six_by_six rows"
  shows "(\<forall>p. run_outcome (render_loop E evs rows w) \<noteq> Panicked p)
       \<and> six_by_six (run_rows (render_loop E evs rows w))
       \<and> run_rows (render_loop E evs rows w) ! 0 = rows ! 0
       \<and> list_all (\<lambda>l. six_by_six (rendered l) \<and> rendered l ! 0 = rows ! 0)
            (run_logs (render_loop E evs rows w))"
  using assms
proof (induction evs arbitrary: rows w)
  case Nil
  show ?case
  proof (cases E zero_StatsRecord w rule: collectStats_cases)
    case (error err rec' w')
    with Nil show ?thesis
      by (simp add: render_loop_first_error run_simps)
  next
    case (ok recv w1)
    with Nil show ?thesis
      by (simp add: render_loop_Nil run_simps)
  qed
next
  case (Cons ev rest)
  show ?case
  proof (cases E zero_StatsRecord w rule: collectStats_cases)
    case (error err rec' w')
    with Cons.prems show ?thesis
      by (simp add: render_loop_first_error run_simps)
  next
    case (ok recv w1)
    show ?thesis
    proof (cases ev)
      case Tick
      show ?thesis
      proof (cases E recv w1 rule: collectStats_cases)
        case (error err rec' w2)
        with ok Tick Cons.prems show ?thesis
          by (simp add: render_loop_tick_error run_simps)
      next
        case second: (ok recv' w2)
        obtain sts rows' where u: "calcStats recv recv' = Inr sts" "updateTable sts rows = Inr rows'"
            "six_by_six rows'" "rows' ! 0 = rows ! 0"
          using updateTable_after_calcStats [OF Cons.prems, of recv recv'] by blast
        note step = render_loop_tick_ok [OF ok second u(1,2), of rest]
        from Cons.IH [OF u(3), of w2] u(3,4) show ?thesis
          unfolding Tick step run_simps by (simp add: list_all_iff)
      qed
    next
      case (UiEvent ident)
      show ?thesis
      proof (cases "ident = ''q'' \<or> ident = ''<C-c>''")
        case True
        with ok UiEvent Cons.prems show ?thesis
          by (simp add: render_loop_quit [OF ok True] run_simps)
      next
        case False
        then have "render_loop E (UiEvent ident # rest) rows w = render_loop E rest rows w1"
          using render_loop_other_event [OF ok] by simp
        with Cons.IH [OF Cons.prems, of w1] UiEvent show ?thesis
          by simp
      qed
    qed
  qed
qed






lemma six_by_six_initial: "six_by_six initial_rows"
  by (simp add: six_by_six_def initial_rows_def)

lemma assign_cell_shape:
  "assign_cell rows r c rhs = Inr rows' \<Longrightarrow> map length rows' = map length rows"
  by (auto simp add: assign_cell_def map_update list_update_same_conv
      split: if_splits sum.splits)

lemma update_row_shape:
  assumes "update_row s i rows = Inr rows'"
  shows "map length rows' = map length rows"
proof -
  from assms obtain t0 t1 t2 t3 t4 where
    "assign_cell rows (i + 1) 0 (action2str (of_nat i)) = Inr t0"
    "assign_cell t0 (i + 1) 1 (field s Packets) = Inr t1"
    "assign_cell t1 (i + 1) 2 (field s PPs) = Inr t2"
    "assign_cell t2 (i + 1) 3 (field s Bytes) = Inr t3"
    "assign_cell t3 (i + 1) 4 (field s BPs) = Inr t4"
    "assign_cell t4 (i + 1) 5 (field s Period) = Inr rows'"
    unfolding update_row_def by (auto split: sum.splits)
  then show ?thesis
    using assign_cell_shape by metis
qed

lemma update_loop_shape:
  "update_loop sts i rows = Inr rows' \<Longrightarrow> map length rows' = map length rows"
proof (induction sts i rows rule: update_loop.induct)
  case (1 sts i rows)
  show ?case
  proof (cases "i < 5")
    case True
    with "1.prems" obtain s rows1 where s: "a5_get sts i = Some s"
        "update_row s i rows = Inr rows1" "update_loop sts (i + 1) rows1 = Inr rows'"
      by (subst (asm) update_loop.simps) (auto split: option.splits sum.splits)
    from "1.IH" [OF True s] update_row_shape [OF s(2)] show ?thesis
      by simp
  next
    case False
    with "1.prems" show ?thesis
      by (subst (asm) update_loop.simps) simp
  qed
qed

text \<open>
  C9. The table that RenderStats builds has six rows of six cells; after any sequence of
  ticks and terminal events it still has, and so has every table handed to
  \<^verbatim>\<open>ui.Render\<close>; the header row is never written; updateTable does not panic in the loop,
  and on any table at all it leaves the number of rows and the length of every row as they
  are.
\<close>

theorem table_always_six_by_six:
  "six_by_six initial_rows
   \<and> six_by_six (run_rows (RenderStats E None evs w))
   \<and> list_all (\<lambda>l. six_by_six (rendered l) \<and> rendered l ! 0 = initial_rows ! 0)
        (run_logs (RenderStats E None evs w))
   \<and> run_rows (RenderStats E None evs w) ! 0 = initial_rows ! 0
   \<and> (\<forall>p. run_outcome (RenderStats E None evs w) \<noteq> Panicked p)
   \<and> (updateTable sts rows = Inr rows' \<longrightarrow> map length rows' = map length rows)"
  using render_loop_table [OF six_by_six_initial, of E evs w] six_by_six_initial
    update_loop_shape [of sts 0 rows rows']
  by (simp add: RenderStats_def updateTable_def)

lemma updateTable_example: "updateTable example_stats initial_rows = Inr example_rows"
  by code_simp

theorem table_always_six_by_six_witness:
  "updateTable example_stats initial_rows = Inr example_rows
   \<and> map length example_rows = map length initial_rows"
proof -
  have "updateTable example_stats initial_rows = Inr example_rows
      \<longrightarrow> map length example_rows = map length initial_rows"
    using table_always_six_by_six [of counting_env "[]" 0 example_stats initial_rows example_rows]
    by (elim conjE)
  with updateTable_example show ?thesis
    by simp
qed












end
